theory Spec2Isabelle
  imports Complex_Main "HOL-Library.Word"
begin

section \<open>Errors and the file system\<close>

text \<open>
  The exceptions the pipeline of \<^verbatim>\<open>dstar_image_prep.py\<close> can raise are values of one
  datatype; a function that may raise returns \<open>py_error + 'a\<close>, with \<open>Inl\<close> the exception.
\<close>

datatype py_error =
    ValueError
  | ZeroDivisionError
  | FileNotFoundError
  | ArgumentTypeError

type_synonym bytes = "8 word list"

type_synonym path = string

text \<open>
  The part of the file system the encoder touches: the regular files with their contents,
  and, as a log of the effects, the quality of every \<^verbatim>\<open>img.save\<close> call in the order the
  calls were made.
\<close>

record fs =
  files :: "path \<rightharpoonup> bytes"
  saves :: "int list"

text \<open>
  \<^verbatim>\<open>img.save(out_path, format="JPEG", quality=q, optimize=True, progressive=False,
  subsampling=2)\<close>: the encoder of the imaging library is a parameter \<open>jpeg\<close>, a function of the
  image and the quality; the call replaces the file at \<open>out_path\<close>.
\<close>

definition img_save :: "('img \<Rightarrow> int \<Rightarrow> bytes) \<Rightarrow> 'img \<Rightarrow> path \<Rightarrow> int \<Rightarrow> fs \<Rightarrow> fs" where
  "img_save jpeg img out_path q s =
     s\<lparr>files := (files s)(out_path \<mapsto> jpeg img q), saves := saves s @ [q]\<rparr>"

text \<open>\<^verbatim>\<open>out_path.stat().st_size\<close> raises \<^verbatim>\<open>FileNotFoundError\<close> when there is no file.\<close>

definition stat_size :: "fs \<Rightarrow> path \<Rightarrow> py_error + int" where
  "stat_size s p = (case files s p of None \<Rightarrow> Inl FileNotFoundError | Some b \<Rightarrow> Inr (int (length b)))"

section \<open>The budgeted encoder\<close>

text \<open>
  The \<^verbatim>\<open>while q >= quality_min\<close> loop of \<^verbatim>\<open>save_jpeg_under_limit\<close> together with the two
  statements after it. The loop has no bound of its own (a \<open>quality_step\<close> that is not positive
  never leaves it when no trial fits), so a run that does not return is the value \<open>None\<close>.
\<close>

partial_function (option) save_loop ::
  "('img \<Rightarrow> int \<Rightarrow> bytes) \<Rightarrow> 'img \<Rightarrow> path \<Rightarrow> int \<Rightarrow> int \<Rightarrow> int \<Rightarrow> int \<Rightarrow> fs
     \<Rightarrow> (fs \<times> (py_error + int \<times> int)) option" where
  "save_loop jpeg img out_path max_bytes quality_min quality_step q s =
     (if q \<ge> quality_min then
        (let s1 = img_save jpeg img out_path q s in
         case stat_size s1 out_path of
           Inl e \<Rightarrow> Some (s1, Inl e)
         | Inr size_bytes \<Rightarrow>
             if size_bytes \<le> max_bytes then Some (s1, Inr (q, size_bytes))
             else save_loop jpeg img out_path max_bytes quality_min quality_step
                    (q - quality_step) s1)
      else
        (case stat_size s out_path of
           Inl e \<Rightarrow> Some (s, Inl e)
         | Inr size_bytes \<Rightarrow> Some (s, Inr (q + quality_step, size_bytes))))"

definition save_jpeg_under_limit ::
  "('img \<Rightarrow> int \<Rightarrow> bytes) \<Rightarrow> 'img \<Rightarrow> path \<Rightarrow> int \<Rightarrow> int \<Rightarrow> int \<Rightarrow> int \<Rightarrow> fs
     \<Rightarrow> (fs \<times> (py_error + int \<times> int)) option" where
  "save_jpeg_under_limit jpeg img out_path max_kb quality_start quality_min quality_step s =
     (let max_bytes = max_kb * 1024; q = quality_start
      in save_loop jpeg img out_path max_bytes quality_min quality_step q s)"

text \<open>
  The descending scan \<open>quality_start, quality_start - quality_step, ...\<close> as long as the value
  is at least \<open>quality_min\<close>: the qualities the loop can reach when the step is positive.
\<close>

function scan :: "int \<Rightarrow> int \<Rightarrow> int \<Rightarrow> int list" where
  "scan q quality_min quality_step =
     (if 0 < quality_step \<and> quality_min \<le> q
      then q # scan (q - quality_step) quality_min quality_step else [])"
  by pat_completeness auto
termination
  by (relation "measure (\<lambda>(q, quality_min, quality_step). nat (q - quality_min + 1))") auto

declare scan.simps [simp del]

text \<open>The file system after \<^verbatim>\<open>img.save\<close> at each quality of a list, in order.\<close>

definition save_all :: "('img \<Rightarrow> int \<Rightarrow> bytes) \<Rightarrow> 'img \<Rightarrow> path \<Rightarrow> int list \<Rightarrow> fs \<Rightarrow> fs" where
  "save_all jpeg img out_path qs s = foldl (\<lambda>s q. img_save jpeg img out_path q s) s qs"

text \<open>The test \<^verbatim>\<open>size_bytes <= max_bytes\<close> on the encode at quality \<open>q\<close>.\<close>

definition fits :: "('img \<Rightarrow> int \<Rightarrow> bytes) \<Rightarrow> 'img \<Rightarrow> int \<Rightarrow> int \<Rightarrow> bool" where
  "fits jpeg img max_bytes q = (int (length (jpeg img q)) \<le> max_bytes)"

text \<open>
  The file at \<open>out_path\<close> is the encode at quality \<open>q\<close>, and that encode is the last one
  \<^verbatim>\<open>img.save\<close> produced.
\<close>

definition written_last :: "('img \<Rightarrow> int \<Rightarrow> bytes) \<Rightarrow> 'img \<Rightarrow> path \<Rightarrow> int \<Rightarrow> fs \<Rightarrow> bool" where
  "written_last jpeg img out_path q s =
     (files s out_path = Some (jpeg img q) \<and> saves s \<noteq> [] \<and> last (saves s) = q)"

text \<open>
  An encoder and file systems for concrete runs: an encoder whose output has \<open>n\<close> bytes at
  every quality, the file system without files, and the one with a single file.
\<close>

definition flat_jpeg :: "nat \<Rightarrow> unit \<Rightarrow> int \<Rightarrow> bytes" where
  "flat_jpeg n img q = replicate n 0"

definition empty_disk :: fs where
  "empty_disk = \<lparr>files = Map.empty, saves = []\<rparr>"

definition disk_with :: "path \<Rightarrow> bytes \<Rightarrow> fs" where
  "disk_with p b = \<lparr>files = [p \<mapsto> b], saves = []\<rparr>"

section \<open>Floating-point arithmetic of the aspect-ratio computation\<close>

text \<open>
  \<^verbatim>\<open>src_w / src_h\<close>, \<^verbatim>\<open>target_w / src_ratio\<close> and \<^verbatim>\<open>target_h * src_ratio\<close> are operations on
  Python floats (IEEE 754 binary64). A float is modelled by the rational number it denotes,
  and every operation returns the exact result rounded to the nearest number with a 53-bit
  significand, ties to the even significand. Overflow, subnormal numbers, infinities and NaN
  are left out: ratios of pixel counts stay far inside the normal range.
\<close>

fun bit_length :: "nat \<Rightarrow> nat" where
  "bit_length n = (if n = 0 then 0 else Suc (bit_length (n div 2)))"

declare bit_length.simps [simp del]

definition pow2 :: "int \<Rightarrow> rat" where
  "pow2 e = (if 0 \<le> e then 2 ^ nat e else 1 / 2 ^ nat (- e))"

text \<open>
  Python's \<^verbatim>\<open>round(x)\<close> on a float: the nearest integer, a tie going to the even one
  (\<^verbatim>\<open>round(0.5) == 0\<close>, \<^verbatim>\<open>round(1.5) == 2\<close>, \<^verbatim>\<open>round(2.5) == 2\<close>).
\<close>

definition py_round :: "rat \<Rightarrow> int" where
  "py_round x =
     (let f = \<lfloor>x\<rfloor>; d = x - of_int f
      in if d < 1 / 2 then f else if 1 / 2 < d then f + 1 else if even f then f else f + 1)"

text \<open>
  Rounding to binary64: with \<open>2 ^ e \<le> \<bar>x\<bar> < 2 ^ (e + 1)\<close> the significand is
  \<open>\<bar>x\<bar> / 2 ^ (e - 52)\<close> rounded to an integer, ties to even.
\<close>

definition fl :: "rat \<Rightarrow> rat" where
  "fl x =
     (if x = 0 then 0
      else
        let (a, b) = quotient_of \<bar>x\<bar>;
            d = int (bit_length (nat a)) - int (bit_length (nat b));
            e = (if pow2 d \<le> \<bar>x\<bar> then d else d - 1);
            m = py_round (\<bar>x\<bar> / pow2 (e - 52))
        in sgn x * of_int m * pow2 (e - 52))"

text \<open>
  True division of two ints (\<^verbatim>\<open>a / b\<close>) is the correctly rounded quotient; an int meeting a
  float is converted first. Division by zero raises.
\<close>

definition int_truediv :: "int \<Rightarrow> int \<Rightarrow> py_error + rat" where
  "int_truediv a b = (if b = 0 then Inl ZeroDivisionError else Inr (fl (of_int a / of_int b)))"

definition int_div_float :: "int \<Rightarrow> rat \<Rightarrow> py_error + rat" where
  "int_div_float a y = (if y = 0 then Inl ZeroDivisionError else Inr (fl (fl (of_int a) / y)))"

definition int_mul_float :: "int \<Rightarrow> rat \<Rightarrow> rat" where
  "int_mul_float a y = fl (fl (of_int a) * y)"

section \<open>Images and the operations of the imaging library\<close>

type_synonym colour = "nat \<times> nat \<times> nat"

type_synonym 'px raster = "int \<Rightarrow> int \<Rightarrow> 'px"

text \<open>
  An image object: \<^verbatim>\<open>img.size\<close>, \<^verbatim>\<open>img.mode\<close>, the EXIF orientation tag if there is one, and
  the pixel at column \<open>x\<close> and row \<open>y\<close> (meaningful for \<open>0 \<le> x < width\<close>, \<open>0 \<le> y < height\<close>).
\<close>

record 'px image =
  img_size :: "int \<times> int"
  img_mode :: string
  exif_orientation :: "nat option"
  pix :: "'px raster"

text \<open>
  What the library computes on pixel values is a parameter: the pixel permutation of a
  transpose method, the conversion of a mode's pixels to RGB, and Lanczos resampling from
  one size to another. Sizes, modes and the order of the calls are modelled here.
\<close>

record 'px pil =
  transpose_px :: "nat \<Rightarrow> int \<times> int \<Rightarrow> 'px raster \<Rightarrow> 'px raster"
  rgb_px :: "string \<Rightarrow> 'px raster \<Rightarrow> colour raster"
  lanczos_px :: "int \<times> int \<Rightarrow> colour raster \<Rightarrow> int \<times> int \<Rightarrow> colour raster"

text \<open>The calls into the library, logged in the order they are made.\<close>

datatype pil_call =
    Exif_transpose
  | Convert string
  | Resize "int \<times> int"
  | New_image "int \<times> int"
  | Paste "int \<times> int"
  | Crop "int \<times> int \<times> int \<times> int"

text \<open>
  \<^verbatim>\<open>ImageOps.exif_transpose\<close>: orientations 2 to 8 name a flip or rotation, which is applied
  and the tag removed; 5 to 8 exchange width and height. Any other image comes back as it is.
\<close>

definition exif_transpose :: "'px pil \<Rightarrow> 'px image \<Rightarrow> 'px image" where
  "exif_transpose lib img =
     (case exif_orientation img of
        None \<Rightarrow> img
      | Some orient \<Rightarrow>
          if 2 \<le> orient \<and> orient \<le> 8 then
            img\<lparr>img_size := (if 5 \<le> orient then (snd (img_size img), fst (img_size img))
                              else img_size img),
                exif_orientation := None,
                pix := transpose_px lib orient (img_size img) (pix img)\<rparr>
          else img)"

text \<open>\<^verbatim>\<open>img.convert("RGB")\<close>.\<close>

definition convert :: "'px pil \<Rightarrow> string \<Rightarrow> 'px image \<Rightarrow> colour image" where
  "convert lib m img =
     \<lparr>img_size = img_size img, img_mode = m, exif_orientation = exif_orientation img,
      pix = rgb_px lib (img_mode img) (pix img)\<rparr>"

text \<open>
  \<^verbatim>\<open>img.resize(size, Image.LANCZOS)\<close>: a request for the image's own size returns a copy;
  otherwise a width or height below 1 raises \<^verbatim>\<open>ValueError\<close> (``height and width must be
  > 0''), and the result has exactly the requested size.
\<close>

definition resize :: "'px pil \<Rightarrow> colour image \<Rightarrow> int \<times> int \<Rightarrow> py_error + colour image" where
  "resize lib img sz =
     (if img_size img = sz then Inr img
      else if fst sz < 1 \<or> snd sz < 1 then Inl ValueError
      else Inr (img\<lparr>img_size := sz, pix := lanczos_px lib (img_size img) (pix img) sz\<rparr>))"

text \<open>\<^verbatim>\<open>Image.new("RGB", size, colour)\<close>: a negative width or height raises.\<close>

definition new_image :: "int \<times> int \<Rightarrow> colour \<Rightarrow> py_error + colour image" where
  "new_image sz c =
     (if fst sz < 0 \<or> snd sz < 0 then Inl ValueError
      else Inr \<lparr>img_size = sz, img_mode = ''RGB'', exif_orientation = None, pix = (\<lambda>x y. c)\<rparr>)"

text \<open>
  \<^verbatim>\<open>canvas.paste(im, (ox, oy))\<close>: the pixels of \<open>im\<close> replace those of the canvas in the box
  with upper left corner \<open>(ox, oy)\<close> and the size of \<open>im\<close>.
\<close>

definition paste :: "colour image \<Rightarrow> colour image \<Rightarrow> int \<times> int \<Rightarrow> colour image" where
  "paste canvas im off =
     canvas\<lparr>pix := (\<lambda>x y.
        if fst off \<le> x \<and> x < fst off + fst (img_size im) \<and>
           snd off \<le> y \<and> y < snd off + snd (img_size im)
        then pix im (x - fst off) (y - snd off) else pix canvas x y)\<rparr>"

text \<open>
  \<^verbatim>\<open>img.crop((left, upper, right, lower))\<close>: the result has size
  \<open>(right - left, lower - upper)\<close>; a part of the box outside the image is black. A box with
  \<open>right < left\<close> or \<open>lower < upper\<close> raises.
\<close>

definition crop :: "colour image \<Rightarrow> int \<times> int \<times> int \<times> int \<Rightarrow> py_error + colour image" where
  "crop img box =
     (case box of (left, upper, right, lower) \<Rightarrow>
        if right < left \<or> lower < upper then Inl ValueError
        else Inr (img\<lparr>img_size := (right - left, lower - upper),
               pix := (\<lambda>x y.
                 if 0 \<le> x + left \<and> x + left < fst (img_size img) \<and>
                    0 \<le> y + upper \<and> y + upper < snd (img_size img)
                 then pix img (x + left) (y + upper) else (0, 0, 0))\<rparr>))"

section \<open>The size fitter\<close>

text \<open>
  The size of the resized content in mode \<^verbatim>\<open>contain\<close> (lines 100 to 105 of the source) and
  in mode \<^verbatim>\<open>cover\<close> (lines 114 to 119).
\<close>

definition contain_size :: "rat \<Rightarrow> rat \<Rightarrow> int \<times> int \<Rightarrow> py_error + int \<times> int" where
  "contain_size src_ratio tgt_ratio sz =
     (case sz of (target_w, target_h) \<Rightarrow>
        if src_ratio > tgt_ratio then
          (case int_div_float target_w src_ratio of
             Inl e \<Rightarrow> Inl e
           | Inr r \<Rightarrow> Inr (target_w, py_round r))
        else Inr (py_round (int_mul_float target_h src_ratio), target_h))"

definition cover_size :: "rat \<Rightarrow> rat \<Rightarrow> int \<times> int \<Rightarrow> py_error + int \<times> int" where
  "cover_size src_ratio tgt_ratio sz =
     (case sz of (target_w, target_h) \<Rightarrow>
        if src_ratio > tgt_ratio then
          Inr (py_round (int_mul_float target_h src_ratio), target_h)
        else
          (case int_div_float target_w src_ratio of
             Inl e \<Rightarrow> Inl e
           | Inr r \<Rightarrow> Inr (target_w, py_round r)))"

text \<open>
  \<^verbatim>\<open>resize_to_fit\<close>. The result is the log of the library calls made, and the returned image
  or the exception raised.
\<close>

definition resize_to_fit ::
  "'px pil \<Rightarrow> 'px image \<Rightarrow> int \<times> int \<Rightarrow> string \<Rightarrow> pil_call list \<times> (py_error + colour image)" where
  "resize_to_fit lib img0 sz mode =
     (case sz of (target_w, target_h) \<Rightarrow>
      let img = convert lib ''RGB'' (exif_transpose lib img0);
          log0 = [Exif_transpose, Convert ''RGB'']
      in
      if mode = ''exact'' then
        (log0 @ [Resize (target_w, target_h)], resize lib img (target_w, target_h))
      else
        (case img_size img of (src_w, src_h) \<Rightarrow>
          (case int_truediv src_w src_h of
             Inl e \<Rightarrow> (log0, Inl e)
           | Inr src_ratio \<Rightarrow>
              (case int_truediv target_w target_h of
                 Inl e \<Rightarrow> (log0, Inl e)
               | Inr tgt_ratio \<Rightarrow>
                  if mode = ''contain'' then
                    (case contain_size src_ratio tgt_ratio (target_w, target_h) of
                       Inl e \<Rightarrow> (log0, Inl e)
                     | Inr (new_w, new_h) \<Rightarrow>
                        (case resize lib img (new_w, new_h) of
                           Inl e \<Rightarrow> (log0 @ [Resize (new_w, new_h)], Inl e)
                         | Inr resized \<Rightarrow>
                            (case new_image (target_w, target_h) (0, 0, 0) of
                               Inl e \<Rightarrow>
                                 (log0 @ [Resize (new_w, new_h), New_image (target_w, target_h)],
                                  Inl e)
                             | Inr canvas \<Rightarrow>
                                 (log0 @ [Resize (new_w, new_h), New_image (target_w, target_h),
                                          Paste ((target_w - new_w) div 2, (target_h - new_h) div 2)],
                                  Inr (paste canvas resized
                                         ((target_w - new_w) div 2, (target_h - new_h) div 2))))))
                  else if mode = ''cover'' then
                    (case cover_size src_ratio tgt_ratio (target_w, target_h) of
                       Inl e \<Rightarrow> (log0, Inl e)
                     | Inr (new_w, new_h) \<Rightarrow>
                        (case resize lib img (new_w, new_h) of
                           Inl e \<Rightarrow> (log0 @ [Resize (new_w, new_h)], Inl e)
                         | Inr resized \<Rightarrow>
                            (let left = (new_w - target_w) div 2;
                                 top' = (new_h - target_h) div 2
                             in (log0 @ [Resize (new_w, new_h),
                                         Crop (left, top', left + target_w, top' + target_h)],
                                 crop resized (left, top', left + target_w, top' + target_h)))))
                  else (log0, Inl ValueError)))))"

text \<open>
  The layout of mode \<^verbatim>\<open>contain\<close> in the words of the specification: with
  \<open>srcRatio = srcW / srcH\<close> and \<open>tgtRatio = width / height\<close>, if \<open>srcRatio > tgtRatio\<close> then
  \<open>newW = width\<close>, \<open>newH = round (width / srcRatio)\<close>, else \<open>newH = height\<close>,
  \<open>newW = round (height * srcRatio)\<close>; the content is pasted at offset
  \<open>((width - newW) / 2, (height - newH) / 2)\<close> with floor division. The result is the content
  size and the offset.
\<close>

definition spec_contain_layout :: "int \<times> int \<Rightarrow> int \<times> int \<Rightarrow> (int \<times> int) \<times> (int \<times> int)" where
  "spec_contain_layout src tgt =
     (case src of (src_w, src_h) \<Rightarrow> case tgt of (width, height) \<Rightarrow>
        let src_ratio = fl (of_int src_w / of_int src_h);
            tgt_ratio = fl (of_int width / of_int height);
            new_size = (if src_ratio > tgt_ratio
                        then (width, py_round (fl (fl (of_int width) / src_ratio)))
                        else (py_round (fl (fl (of_int height) * src_ratio)), height))
        in (new_size, ((width - fst new_size) div 2, (height - snd new_size) div 2)))"

text \<open>
  A library instance and an image for concrete runs: pixel operations that leave the pixel
  values alone, and a white image of a given size without an orientation tag.
\<close>

definition plain_lib :: "colour pil" where
  "plain_lib = \<lparr>transpose_px = (\<lambda>m sz r. r), rgb_px = (\<lambda>m r. r), lanczos_px = (\<lambda>s r t. r)\<rparr>"

definition white_image :: "int \<times> int \<Rightarrow> colour image" where
  "white_image sz = \<lparr>img_size = sz, img_mode = ''RGB'', exif_orientation = None,
                      pix = (\<lambda>x y. (255, 255, 255))\<rparr>"

text \<open>A grey-scale 600 x 800 image carrying orientation tag 6 (a quarter turn).\<close>

definition tagged_grey_image :: "colour image" where
  "tagged_grey_image = \<lparr>img_size = (600, 800), img_mode = ''L'', exif_orientation = Some 6,
                         pix = (\<lambda>x y. (9, 9, 9))\<rparr>"

section \<open>Strings\<close>

text \<open>
  A Python \<^verbatim>\<open>str\<close> is modelled as a list of characters with code points below 256.
  \<^verbatim>\<open>s.split(sep)\<close> for a one-character separator: the pieces between the separators, at
  least one piece, empty pieces kept.
\<close>

fun split_on :: "char \<Rightarrow> string \<Rightarrow> string list" where
  "split_on sep [] = [[]]"
| "split_on sep (c # cs) =
     (if c = sep then [] # split_on sep cs
      else (case split_on sep cs of
              [] \<Rightarrow> [[c]]
            | w # ws \<Rightarrow> (c # w) # ws))"

section \<open>The overlay compositor\<close>

text \<open>
  Image objects live in a store and are passed by reference, so that a copy and a mutation
  in place can be told apart. References below \<open>next_ref\<close> are allocated;
  \<^verbatim>\<open>img.copy()\<close> allocates \<open>next_ref\<close>.
\<close>

type_synonym ref = nat

record store =
  objs :: "ref \<Rightarrow> colour image"
  next_ref :: ref

definition copy_image :: "store \<Rightarrow> ref \<Rightarrow> store \<times> ref" where
  "copy_image st r = (st\<lparr>objs := (objs st)(next_ref st := objs st r), next_ref := Suc (next_ref st)\<rparr>,
                      next_ref st)"

datatype font = TrueType string nat | Default_font

text \<open>
  The text engine of the host is a parameter: whether \<^verbatim>\<open>ImageFont.truetype(path, size)\<close>
  finds the font (it raises \<^verbatim>\<open>OSError\<close> otherwise), the bounding box
  \<^verbatim>\<open>draw.textbbox((0, 0), text, font=font)\<close>, and the pixels \<^verbatim>\<open>draw.text\<close> writes.
\<close>

record text_engine =
  font_loadable :: "string \<Rightarrow> nat \<Rightarrow> bool"
  textbbox :: "font \<Rightarrow> string \<Rightarrow> int \<times> int \<times> int \<times> int"
  render_text :: "font \<Rightarrow> string \<Rightarrow> int \<times> int \<Rightarrow> colour \<Rightarrow> colour image \<Rightarrow> colour image"

text \<open>The \<^verbatim>\<open>try\<close> block: both fonts from the file, or both the built-in font.\<close>

definition load_fonts :: "text_engine \<Rightarrow> font \<times> font" where
  "load_fonts te =
     (if font_loadable te ''C:/Windows/Fonts/arial.ttf'' 20 \<and>
         font_loadable te ''C:/Windows/Fonts/arial.ttf'' 18
      then (TrueType ''C:/Windows/Fonts/arial.ttf'' 20, TrueType ''C:/Windows/Fonts/arial.ttf'' 18)
      else (Default_font, Default_font))"

text \<open>The list \<^verbatim>\<open>lines\<close>: the identity lines in the main font, then the caption.\<close>

definition overlay_lines :: "font \<times> font \<Rightarrow> string \<Rightarrow> string \<Rightarrow> (string \<times> font) list" where
  "overlay_lines fonts identity_text caption_text =
     (if identity_text \<noteq> [] then map (\<lambda>line. (line, fst fonts)) (split_on CHR ''|'' identity_text)
      else [])
     @ (if caption_text \<noteq> [] then [(caption_text, snd fonts)] else [])"

definition line_width :: "text_engine \<Rightarrow> string \<times> font \<Rightarrow> int" where
  "line_width te l = (case textbbox te (snd l) (fst l) of (x0, y0, x1, y1) \<Rightarrow> x1 - x0)"

definition line_height :: "text_engine \<Rightarrow> string \<times> font \<Rightarrow> int" where
  "line_height te l = (case textbbox te (snd l) (fst l) of (x0, y0, x1, y1) \<Rightarrow> y1 - y0)"

text \<open>\<^verbatim>\<open>draw.text(xy, text, font=font, fill=fill)\<close> changes the image the draw object is bound to.\<close>

definition draw_text ::
  "text_engine \<Rightarrow> ref \<Rightarrow> int \<times> int \<Rightarrow> string \<Rightarrow> font \<Rightarrow> colour \<Rightarrow> store \<Rightarrow> store" where
  "draw_text te r xy txt fnt fill st =
     st\<lparr>objs := (objs st)(r := render_text te fnt txt xy fill (objs st r))\<rparr>"

text \<open>
  The drawing loop over \<^verbatim>\<open>zip(lines, line_heights)\<close>: the shadow at \<open>(x + 1, y + 1)\<close> in black,
  the text at \<open>(x, y)\<close> in white, then \<open>y += h + 4\<close>.
\<close>

fun draw_lines ::
  "text_engine \<Rightarrow> ref \<Rightarrow> int \<Rightarrow> int \<Rightarrow> ((string \<times> font) \<times> int) list \<Rightarrow> store \<Rightarrow> store" where
  "draw_lines te r x y [] st = st"
| "draw_lines te r x y (((txt, fnt), h) # rest) st =
     draw_lines te r x (y + h + 4) rest
       (draw_text te r (x, y) txt fnt (255, 255, 255)
          (draw_text te r (x + 1, y + 1) txt fnt (0, 0, 0) st))"

text \<open>
  \<^verbatim>\<open>add_watermark\<close>. \<^verbatim>\<open>max(line_widths)\<close> raises \<^verbatim>\<open>ValueError\<close> on an empty list; its value
  is not used.
\<close>

definition add_watermark ::
  "text_engine \<Rightarrow> store \<Rightarrow> ref \<Rightarrow> string \<Rightarrow> string \<Rightarrow> int \<Rightarrow> store \<times> (py_error + ref)" where
  "add_watermark te st img identity_text caption_text margin =
     (if identity_text = [] \<and> caption_text = [] then (st, Inr img)
      else
        (case copy_image st img of (st1, img1) \<Rightarrow>
         let lines = overlay_lines (load_fonts te) identity_text caption_text;
             line_heights = map (line_height te) lines;
             line_widths = map (line_width te) lines;
             total_height = sum_list line_heights + (int (length lines) - 1) * 4
         in if line_widths = [] then (st1, Inl ValueError)
            else
              let x = margin;
                  y = snd (img_size (objs st1 img1)) - total_height - margin
              in (draw_lines te img1 x y (zip lines line_heights) st1, Inr img1)))"

text \<open>
  The overlay as a function of an image value: what the drawing loop makes of one image,
  without the store.
\<close>

fun render_lines ::
  "text_engine \<Rightarrow> int \<Rightarrow> int \<Rightarrow> ((string \<times> font) \<times> int) list \<Rightarrow> colour image \<Rightarrow> colour image" where
  "render_lines te x y [] im = im"
| "render_lines te x y (((txt, fnt), h) # rest) im =
     render_lines te x (y + h + 4) rest
       (render_text te fnt txt (x, y) (255, 255, 255)
          (render_text te fnt txt (x + 1, y + 1) (0, 0, 0) im))"

definition overlay_of :: "text_engine \<Rightarrow> colour image \<Rightarrow> string \<Rightarrow> string \<Rightarrow> int \<Rightarrow> colour image" where
  "overlay_of te im identity_text caption_text margin =
     (let lines = overlay_lines (load_fonts te) identity_text caption_text;
          line_heights = map (line_height te) lines;
          total_height = sum_list line_heights + (int (length lines) - 1) * 4
      in render_lines te margin (snd (img_size im) - total_height - margin)
           (zip lines line_heights) im)"

text \<open>A text engine and a store for concrete runs.\<close>

definition plain_engine :: text_engine where
  "plain_engine =
     \<lparr>font_loadable = (\<lambda>p n. False),
      textbbox = (\<lambda>f t. (0, 0, 6 * int (length t), 11)),
      render_text = (\<lambda>f t xy c im. im\<lparr>pix := (\<lambda>x y. if (x, y) = xy then c else pix im x y)\<rparr>)\<rparr>"

definition one_image_store :: store where
  "one_image_store = \<lparr>objs = (\<lambda>r. white_image (640, 480)), next_ref = 1\<rparr>"

section \<open>Parsing the target size\<close>

text \<open>
  \<^verbatim>\<open>str.lower\<close> on code points below 256: the letters A to Z, and the accented capitals
  192 to 222 except the multiplication sign 215, move up by 32.
\<close>

definition py_lower :: "char \<Rightarrow> char" where
  "py_lower c =
     (let n = (of_char c :: nat)
      in if (65 \<le> n \<and> n \<le> 90) \<or> (192 \<le> n \<and> n \<le> 222 \<and> n \<noteq> 215)
         then char_of (n + 32) else c)"

text \<open>
  White space as \<^verbatim>\<open>str.strip\<close> and \<^verbatim>\<open>int\<close> see it, on code points below 256: tab to
  carriage return, the separators 28 to 31, space, next line (133) and no-break space (160).
\<close>

definition is_space :: "char \<Rightarrow> bool" where
  "is_space c =
     (let n = (of_char c :: nat)
      in (9 \<le> n \<and> n \<le> 13) \<or> (28 \<le> n \<and> n \<le> 32) \<or> n = 133 \<or> n = 160)"

definition strip :: "string \<Rightarrow> string" where
  "strip s = rev (dropWhile is_space (rev (dropWhile is_space s)))"

definition is_digit :: "char \<Rightarrow> bool" where
  "is_digit c = (48 \<le> (of_char c :: nat) \<and> (of_char c :: nat) \<le> 57)"

definition digit_val :: "char \<Rightarrow> nat" where
  "digit_val c = of_char c - 48"

text \<open>
  The digits of a decimal literal after its first digit: a single underscore may stand
  between two digits.
\<close>

fun parse_digits :: "nat \<Rightarrow> string \<Rightarrow> nat option" where
  "parse_digits acc [] = Some acc"
| "parse_digits acc [c] = (if is_digit c then Some (acc * 10 + digit_val c) else None)"
| "parse_digits acc (c # d # ds) =
     (if is_digit c then parse_digits (acc * 10 + digit_val c) (d # ds)
      else if c = CHR ''_'' \<and> is_digit d then parse_digits (acc * 10 + digit_val d) ds
      else None)"

text \<open>
  \<^verbatim>\<open>int(s)\<close> on a string: white space around the literal is dropped, a sign may come
  first, and anything but a decimal literal raises \<^verbatim>\<open>ValueError\<close>. The limit some Python
  versions put on the number of digits (4300) is not modelled.
\<close>

definition py_int :: "string \<Rightarrow> py_error + int" where
  "py_int s =
     (let t = strip s;
          neg = (t \<noteq> [] \<and> hd t = CHR ''-'');
          u = (if t \<noteq> [] \<and> (hd t = CHR ''-'' \<or> hd t = CHR ''+'') then tl t else t)
      in case u of
           [] \<Rightarrow> Inl ValueError
         | c # cs \<Rightarrow>
             if is_digit c then
               (case parse_digits (digit_val c) cs of
                  None \<Rightarrow> Inl ValueError
                | Some n \<Rightarrow> Inr (if neg then - int n else int n))
             else Inl ValueError)"

text \<open>
  \<^verbatim>\<open>parse_size\<close>, the type of the command line's \<^verbatim>\<open>--size\<close>: the unpacking
  \<^verbatim>\<open>w, h = ...\<close> raises unless the split gives exactly two pieces, and every exception
  becomes \<^verbatim>\<open>ArgumentTypeError\<close>.
\<close>

definition parse_size :: "string \<Rightarrow> py_error + int \<times> int" where
  "parse_size s =
     (case split_on CHR ''x'' (map py_lower s) of
        [w, h] \<Rightarrow>
          (case py_int w of
             Inl e \<Rightarrow> Inl ArgumentTypeError
           | Inr a \<Rightarrow>
               (case py_int h of
                  Inl e \<Rightarrow> Inl ArgumentTypeError
                | Inr b \<Rightarrow> Inr (a, b)))
      | _ \<Rightarrow> Inl ArgumentTypeError)"

text \<open>
  \<^verbatim>\<open>App._parse_size\<close> of the graphical front end, on the text of the size field:
  \<^verbatim>\<open>raw.split("x", 1)\<close> cuts at the first \<^verbatim>\<open>x\<close>, and a width or height that is not positive
  raises.
\<close>

definition gui_parse_size :: "string \<Rightarrow> py_error + int \<times> int" where
  "gui_parse_size field =
     (let raw = map py_lower (strip field)
      in if CHR ''x'' \<notin> set raw then Inl ValueError
         else
           let w_s = takeWhile (\<lambda>c. c \<noteq> CHR ''x'') raw;
               h_s = tl (dropWhile (\<lambda>c. c \<noteq> CHR ''x'') raw)
           in case py_int w_s of
                Inl e \<Rightarrow> Inl e
              | Inr w \<Rightarrow>
                  (case py_int h_s of
                     Inl e \<Rightarrow> Inl e
                   | Inr h \<Rightarrow> if w \<le> 0 \<or> h \<le> 0 then Inl ValueError else Inr (w, h)))"

section \<open>Properties of the budgeted encoder\<close>

lemma save_all_Nil: "save_all jpeg img p [] s = s"
  by (simp add: save_all_def)

lemma save_all_Cons: "save_all jpeg img p (q # qs) s = save_all jpeg img p qs (img_save jpeg img p q s)"
  by (simp add: save_all_def)

lemma saves_save_all: "saves (save_all jpeg img p qs s) = saves s @ qs"
  by (induction qs arbitrary: s) (simp_all add: save_all_Nil save_all_Cons img_save_def)

lemma files_save_all:
  "files (save_all jpeg img p qs s) = (if qs = [] then files s else (files s)(p \<mapsto> jpeg img (last qs)))"
  by (induction qs arbitrary: s) (simp_all add: save_all_Nil save_all_Cons img_save_def)

lemma loop_skipped:
  "q < quality_min \<Longrightarrow>
   save_loop jpeg img p mb quality_min step q s =
     Some (s, case stat_size s p of Inl e \<Rightarrow> Inl e | Inr sz \<Rightarrow> Inr (q + step, sz))"
  by (subst save_loop.simps) (simp split: sum.splits)

lemma stat_size_img_save:
  "stat_size (img_save jpeg img p q s) p = Inr (int (length (jpeg img q)))"
  by (simp add: stat_size_def img_save_def)

lemma loop_step:
  "quality_min \<le> q \<Longrightarrow>
   save_loop jpeg img p mb quality_min step q s =
     (if fits jpeg img mb q
      then Some (img_save jpeg img p q s, Inr (q, int (length (jpeg img q))))
      else save_loop jpeg img p mb quality_min step (q - step) (img_save jpeg img p q s))"
  by (subst save_loop.simps) (simp add: stat_size_img_save Let_def fits_def)

lemma loop_found:
  "0 < step \<Longrightarrow>
   find (fits jpeg img mb) (scan q quality_min step) = Some q' \<Longrightarrow>
   save_loop jpeg img p mb quality_min step q s =
     Some (save_all jpeg img p
             (takeWhile (\<lambda>x. \<not> fits jpeg img mb x) (scan q quality_min step) @ [q']) s,
           Inr (q', int (length (jpeg img q'))))"
proof (induction q quality_min step arbitrary: s rule: scan.induct)
  case (1 q quality_min step)
  show ?case
  proof (cases "quality_min \<le> q")
    case False
    with "1.prems" show ?thesis by (simp add: scan.simps[of q])
  next
    case ge: True
    with "1.prems"(1) have sc: "scan q quality_min step = q # scan (q - step) quality_min step"
      by (simp add: scan.simps[of q])
    show ?thesis
    proof (cases "fits jpeg img mb q")
      case True
      with "1.prems"(2) sc have "q' = q" by simp
      with ge True sc show ?thesis
        by (simp add: loop_step save_all_Nil save_all_Cons)
    next
      case False
      with sc "1.prems"(2) have f: "find (fits jpeg img mb) (scan (q - step) quality_min step) = Some q'"
        by simp
      have "0 < step \<and> quality_min \<le> q" using ge "1.prems"(1) by simp
      from "1.IH"[OF this "1.prems"(1) f, of "img_save jpeg img p q s"] ge False sc
      show ?thesis
        by (simp add: loop_step save_all_Cons)
    qed
  qed
qed

lemma loop_exhausted:
  "0 < step \<Longrightarrow> quality_min \<le> q \<Longrightarrow>
   \<forall>x \<in> set (scan q quality_min step). \<not> fits jpeg img mb x \<Longrightarrow>
   save_loop jpeg img p mb quality_min step q s =
     Some (save_all jpeg img p (scan q quality_min step) s,
           Inr (last (scan q quality_min step),
                int (length (jpeg img (last (scan q quality_min step))))))"
proof (induction q quality_min step arbitrary: s rule: scan.induct)
  case (1 q quality_min step)
  from "1.prems"(1,2) have sc: "scan q quality_min step = q # scan (q - step) quality_min step"
    by (simp add: scan.simps[of q])
  with "1.prems"(3) have nofit: "\<not> fits jpeg img mb q" by simp
  show ?case
  proof (cases "quality_min \<le> q - step")
    case False
    then have e: "scan (q - step) quality_min step = []" by (simp add: scan.simps[of "q - step"])
    from False have "save_loop jpeg img p mb quality_min step (q - step) (img_save jpeg img p q s)
       = Some (img_save jpeg img p q s, Inr (q, int (length (jpeg img q))))"
      by (simp add: loop_skipped stat_size_img_save)
    with "1.prems"(2) nofit e sc show ?thesis
      by (simp add: loop_step save_all_Nil save_all_Cons)
  next
    case True
    then have ne: "scan (q - step) quality_min step \<noteq> []"
      using "1.prems"(1) by (simp add: scan.simps[of "q - step"])
    from "1.prems"(3) sc have all': "\<forall>x \<in> set (scan (q - step) quality_min step). \<not> fits jpeg img mb x"
      by simp
    have "0 < step \<and> quality_min \<le> q" using "1.prems" by simp
    from "1.IH"[OF this "1.prems"(1) True all', of "img_save jpeg img p q s"] "1.prems"(2) nofit ne sc
    show ?thesis
      by (simp add: loop_step save_all_Cons)
  qed
qed

lemma last_scan:
  "0 < step \<Longrightarrow> quality_min \<le> q \<Longrightarrow>
   last (scan q quality_min step) = q - step * ((q - quality_min) div step)"
proof (induction q quality_min step rule: scan.induct)
  case (1 q quality_min step)
  from "1.prems" have sc: "scan q quality_min step = q # scan (q - step) quality_min step"
    by (simp add: scan.simps[of q])
  show ?case
  proof (cases "quality_min \<le> q - step")
    case False
    then have e: "scan (q - step) quality_min step = []" by (simp add: scan.simps[of "q - step"])
    from False "1.prems" have "(q - quality_min) div step = 0"
      by simp
    with e sc show ?thesis by simp
  next
    case True
    then have ne: "scan (q - step) quality_min step \<noteq> []"
      using "1.prems"(1) by (simp add: scan.simps[of "q - step"])
    have "q - quality_min = (q - step - quality_min) + step" by simp
    then have "(q - quality_min) div step = (q - step - quality_min) div step + 1"
      using "1.prems"(1) by (metis div_add_self2 less_irrefl)
    moreover have "0 < step \<and> quality_min \<le> q" using "1.prems" by simp
    ultimately show ?thesis
      using "1.IH"[OF _ "1.prems"(1) True] ne sc by (simp add: algebra_simps)
  qed
qed

lemma scan_default: "scan 88 35 3 = [88,85,82,79,76,73,70,67,64,61,58,55,52,49,46,43,40,37]"
  by (simp add: scan.simps)


lemma scan_le: "x \<in> set (scan q quality_min step) \<Longrightarrow> x \<le> q \<and> quality_min \<le> x"
proof (induction q quality_min step rule: scan.induct)
  case (1 q quality_min step)
  show ?case
  proof (cases "0 < step \<and> quality_min \<le> q")
    case True
    with "1.prems" have "x = q \<or> x \<in> set (scan (q - step) quality_min step)"
      by (simp add: scan.simps[of q])
    with "1.IH"[OF True] True show ?thesis by auto
  next
    case False
    with "1.prems" show ?thesis by (simp add: scan.simps[of q])
  qed
qed

lemma find_scan_highest:
  "find P (scan q quality_min step) = Some r \<Longrightarrow> x \<in> set (scan q quality_min step) \<Longrightarrow> P x \<Longrightarrow> x \<le> r"
proof (induction q quality_min step rule: scan.induct)
  case (1 q quality_min step)
  show ?case
  proof (cases "0 < step \<and> quality_min \<le> q")
    case True
    then have sc: "scan q quality_min step = q # scan (q - step) quality_min step"
      by (simp add: scan.simps[of q])
    show ?thesis
    proof (cases "P q")
      case True
      with sc "1.prems"(1) have "r = q" by simp
      with scan_le[OF "1.prems"(2)] show ?thesis by simp
    next
      case False
      with sc "1.prems" have "find P (scan (q - step) quality_min step) = Some r"
        and "x \<in> set (scan (q - step) quality_min step)" by auto
      with "1.IH"[OF True] "1.prems"(3) show ?thesis by simp
    qed
  next
    case False
    with "1.prems" show ?thesis by (simp add: scan.simps[of q])
  qed
qed

lemma save_loop_inv_aux:
  assumes "save_loop jpeg img p mb quality_min step q s = Some res"
  shows "(quality_min \<le> q \<or> written_last jpeg img p (q + step) s) \<longrightarrow>
   (case snd res of Inl e \<Rightarrow> True | Inr (q', sz) \<Rightarrow>
      written_last jpeg img p q' (fst res) \<and> sz = int (length (jpeg img q')))"
  apply (rule save_loop.raw_induct[where P = "\<lambda>jpeg img p mb quality_min step q s res.
     (quality_min \<le> q \<or> written_last jpeg img p (q + step) s) \<longrightarrow>
   (case snd res of Inl e \<Rightarrow> True | Inr (q', sz) \<Rightarrow>
      written_last jpeg img p q' (fst res) \<and> sz = int (length (jpeg img q')))", OF _ assms])
  subgoal for f jpeg img p mb quality_min step q s res
    apply (cases "quality_min \<le> q")
    subgoal
      apply (cases "int (length (jpeg img q)) \<le> mb")
      subgoal by (simp add: stat_size_img_save Let_def) (auto simp: img_save_def written_last_def)
      subgoal premises prems
        using prems(1)[of jpeg img p mb quality_min step "q - step" "img_save jpeg img p q s" res] prems(2-)
        by (simp add: stat_size_img_save Let_def) (simp add: img_save_def written_last_def)
      done
    subgoal by (auto simp: stat_size_def written_last_def split: option.splits)
    done
  done

lemma save_jpeg_under_limit_loop:
  "save_jpeg_under_limit jpeg img p max_kb quality_start quality_min quality_step s =
     save_loop jpeg img p (max_kb * 1024) quality_min quality_step quality_start s"
  by (simp add: save_jpeg_under_limit_def)

text \<open>
  C4. Whenever some quality of the descending scan \<open>quality_start, quality_start - quality_step,
  ...\<close> (down to \<open>quality_min\<close>) gives an encode of at most \<open>max_kb * 1024\<close> bytes,
  \<^verbatim>\<open>save_jpeg_under_limit\<close> returns the first such quality of the scan, which is the highest
  one that fits, together with the size of its encode; that size is within the budget, the
  qualities saved are exactly the ones scanned up to it, and its encode is the file left at
  the destination.
\<close>

theorem first_fitting_quality_is_returned:
  assumes "\<exists>q \<in> set (scan quality_start quality_min quality_step). fits jpeg img (max_kb * 1024) q"
  shows "\<exists>q. find (fits jpeg img (max_kb * 1024)) (scan quality_start quality_min quality_step) = Some q
     \<and> save_jpeg_under_limit jpeg img p max_kb quality_start quality_min quality_step s =
         Some (save_all jpeg img p
                 (takeWhile (\<lambda>x. \<not> fits jpeg img (max_kb * 1024) x)
                    (scan quality_start quality_min quality_step) @ [q]) s,
               Inr (q, int (length (jpeg img q))))
     \<and> int (length (jpeg img q)) \<le> max_kb * 1024
     \<and> (\<forall>x \<in> set (scan quality_start quality_min quality_step).
            fits jpeg img (max_kb * 1024) x \<longrightarrow> x \<le> q)
     \<and> files (save_all jpeg img p
                 (takeWhile (\<lambda>x. \<not> fits jpeg img (max_kb * 1024) x)
                    (scan quality_start quality_min quality_step) @ [q]) s) p = Some (jpeg img q)"
proof -
  let ?sc = "scan quality_start quality_min quality_step"
  let ?fit = "fits jpeg img (max_kb * 1024)"
  from assms have ne: "?sc \<noteq> []" by auto
  then have step: "0 < quality_step" by (auto simp: scan.simps[of quality_start] split: if_splits)
  from assms obtain q where q: "find ?fit ?sc = Some q"
    by (cases "find ?fit ?sc") (auto simp: find_None_iff)
  then have fit: "?fit q" by (auto simp: find_Some_iff)
  have run: "save_jpeg_under_limit jpeg img p max_kb quality_start quality_min quality_step s =
         Some (save_all jpeg img p (takeWhile (\<lambda>x. \<not> ?fit x) ?sc @ [q]) s,
               Inr (q, int (length (jpeg img q))))"
    using loop_found[OF step q] by (simp add: save_jpeg_under_limit_loop)
  have high: "\<forall>x \<in> set ?sc. ?fit x \<longrightarrow> x \<le> q"
    using find_scan_highest[OF q] by blast
  have disk: "files (save_all jpeg img p (takeWhile (\<lambda>x. \<not> ?fit x) ?sc @ [q]) s) p = Some (jpeg img q)"
    by (simp add: files_save_all)
  from q run fit high disk show ?thesis by (auto simp: fits_def)
qed

text \<open>
  An encoder whose output has \<open>3000 * q\<close> bytes, with the defaults: 88 down to 70 are over
  204800 bytes, 67 is the first quality that fits.
\<close>

theorem first_fitting_quality_is_returned_witness:
  "(\<exists>q \<in> set (scan 88 35 3). fits (\<lambda>u q. replicate (nat (q * 3000)) (0 :: 8 word)) () (200 * 1024) q)
   \<and> map_option snd (save_jpeg_under_limit (\<lambda>u q. replicate (nat (q * 3000)) (0 :: 8 word)) ()
        ''out.jpg'' 200 88 35 3 \<lparr>files = Map.empty, saves = []\<rparr>) = Some (Inr (67, 201000))"
proof -
  let ?J = "\<lambda>(u::unit) q. replicate (nat (q * 3000)) (0 :: 8 word)"
  have h: "\<exists>q \<in> set (scan 88 35 3). fits ?J () (200 * 1024) q"
    by (simp add: scan_default fits_def)
  have f: "find (fits ?J () (200 * 1024)) (scan 88 35 3) = Some 67"
    by (simp add: scan_default fits_def)
  from first_fitting_quality_is_returned[OF h, where p = "''out.jpg''" and s = "\<lparr>files = Map.empty, saves = []\<rparr>"] f h
  show ?thesis by auto
qed

text \<open>
  C1, amended. With a positive step and \<open>quality_min \<le> quality_start\<close>, when no quality of
  the scan fits the budget the function returns the last quality of the scan with the size of
  its encode, and that encode is the file on disk. The last quality is
  \<open>quality_start - quality_step * ((quality_start - quality_min) div quality_step)\<close>: it lies
  in \<open>[quality_min, quality_min + quality_step)\<close> and is \<open>quality_min\<close> exactly when the step
  divides \<open>quality_start - quality_min\<close>.
\<close>

theorem exhausted_scan_returns_last_tried_quality:
  assumes "0 < quality_step" and "quality_min \<le> quality_start"
    and "\<forall>q \<in> set (scan quality_start quality_min quality_step). \<not> fits jpeg img (max_kb * 1024) q"
  shows "save_jpeg_under_limit jpeg img p max_kb quality_start quality_min quality_step s =
           Some (save_all jpeg img p (scan quality_start quality_min quality_step) s,
                 Inr (last (scan quality_start quality_min quality_step),
                      int (length (jpeg img (last (scan quality_start quality_min quality_step))))))
     \<and> saves (save_all jpeg img p (scan quality_start quality_min quality_step) s)
          = saves s @ scan quality_start quality_min quality_step
     \<and> files (save_all jpeg img p (scan quality_start quality_min quality_step) s) p
          = Some (jpeg img (last (scan quality_start quality_min quality_step)))
     \<and> last (scan quality_start quality_min quality_step)
          = quality_start - quality_step * ((quality_start - quality_min) div quality_step)
     \<and> quality_min \<le> last (scan quality_start quality_min quality_step)
     \<and> last (scan quality_start quality_min quality_step) < quality_min + quality_step
     \<and> (last (scan quality_start quality_min quality_step) = quality_min
          \<longleftrightarrow> quality_step dvd (quality_start - quality_min))"
proof -
  let ?sc = "scan quality_start quality_min quality_step"
  from assms(1,2) have ne: "?sc \<noteq> []" by (simp add: scan.simps[of quality_start])
  have run: "save_jpeg_under_limit jpeg img p max_kb quality_start quality_min quality_step s =
           Some (save_all jpeg img p ?sc s, Inr (last ?sc, int (length (jpeg img (last ?sc)))))"
    using loop_exhausted[OF assms] by (simp add: save_jpeg_under_limit_loop)
  have l: "last ?sc = quality_start - quality_step * ((quality_start - quality_min) div quality_step)"
    by (rule last_scan[OF assms(1,2)])
  have m: "quality_start - quality_step * ((quality_start - quality_min) div quality_step)
             = quality_min + (quality_start - quality_min) mod quality_step"
    by (simp add: minus_mult_div_eq_mod[symmetric] algebra_simps)
  have r1: "quality_min \<le> last ?sc" and r2: "last ?sc < quality_min + quality_step"
    using assms(1) by (simp_all add: l m)
  have r3: "last ?sc = quality_min \<longleftrightarrow> quality_step dvd (quality_start - quality_min)"
    by (simp add: l m dvd_eq_mod_eq_0)
  from run l r1 r2 r3 ne show ?thesis
    by (simp add: saves_save_all files_save_all)
qed

text \<open>
  The defaults 88, 35, 3 with an encoder that never gets under 300000 bytes: the scan is
  88, 85, ..., 37 and the result is quality 37.
\<close>

theorem exhausted_scan_returns_last_tried_quality_witness:
  "(0::int) < 3 \<and> (35::int) \<le> 88
   \<and> map_option snd (save_jpeg_under_limit (\<lambda>u q. replicate (nat (300000 + q)) (0 :: 8 word)) ()
        ''out.jpg'' 200 88 35 3 \<lparr>files = Map.empty, saves = []\<rparr>) = Some (Inr (37, 300037))
   \<and> map_option (saves \<circ> fst) (save_jpeg_under_limit (\<lambda>u q. replicate (nat (300000 + q)) (0 :: 8 word)) ()
        ''out.jpg'' 200 88 35 3 \<lparr>files = Map.empty, saves = []\<rparr>)
       = Some [88, 85, 82, 79, 76, 73, 70, 67, 64, 61, 58, 55, 52, 49, 46, 43, 40, 37]"
proof -
  let ?J = "\<lambda>(u::unit) q. replicate (nat (300000 + q)) (0 :: 8 word)"
  have h: "\<forall>q \<in> set (scan 88 35 3). \<not> fits ?J () (200 * 1024) q"
    by (simp add: scan_default fits_def)
  from exhausted_scan_returns_last_tried_quality[OF _ _ h, where p = "''out.jpg''" and s = "\<lparr>files = Map.empty, saves = []\<rparr>"]
  show ?thesis by (simp add: scan_default)
qed

text \<open>
  C1 as stated fails at the defaults: with every encode at 204801 bytes (one over the budget
  of 200 KB) the qualities saved are 88, 85, ..., 40, 37. Quality 35 is never encoded, and the
  result is quality 37, not the floor 35.
\<close>

theorem quality_floor_not_reached_counterexample:
  "map_option snd (save_jpeg_under_limit (flat_jpeg 204801) () ''out.jpg'' 200 88 35 3 empty_disk)
     = Some (Inr (37, 204801))
   \<and> map_option (saves \<circ> fst)
         (save_jpeg_under_limit (flat_jpeg 204801) () ''out.jpg'' 200 88 35 3 empty_disk)
       = Some [88, 85, 82, 79, 76, 73, 70, 67, 64, 61, 58, 55, 52, 49, 46, 43, 40, 37]"
proof -
  have h: "\<forall>q \<in> set (scan 88 35 3). \<not> fits (flat_jpeg 204801) () (200 * 1024) q"
    by (simp add: scan_default fits_def flat_jpeg_def)
  have "save_jpeg_under_limit (flat_jpeg 204801) () ''out.jpg'' 200 88 35 3 empty_disk
     = Some (save_all (flat_jpeg 204801) () ''out.jpg'' (scan 88 35 3) empty_disk,
             Inr (last (scan 88 35 3), int (length (flat_jpeg 204801 () (last (scan 88 35 3))))))"
    using loop_exhausted[OF _ _ h, where p = "''out.jpg''" and s = empty_disk]
    by (simp add: save_jpeg_under_limit_loop)
  then show ?thesis
    by (simp add: scan_default saves_save_all flat_jpeg_def empty_disk_def)
qed

text \<open>
  C3, amended. After every call with \<open>quality_min \<le> quality_start\<close> that returns
  \<open>(quality, byte_size)\<close>, the file at the destination is the encode at the returned quality,
  \<open>byte_size\<close> is the size of that file, and the returned quality is the one of the last
  \<^verbatim>\<open>img.save\<close> call: no earlier trial is described. No condition on the step is needed.
\<close>

theorem returned_result_describes_file_on_disk:
  assumes "save_jpeg_under_limit jpeg img p max_kb quality_start quality_min quality_step s
             = Some (s', Inr (quality, byte_size))"
    and "quality_min \<le> quality_start"
  shows "files s' p = Some (jpeg img quality) \<and> byte_size = int (length (jpeg img quality))
     \<and> stat_size s' p = Inr byte_size \<and> saves s' \<noteq> [] \<and> last (saves s') = quality"
proof -
  from assms(1) have "save_loop jpeg img p (max_kb * 1024) quality_min quality_step quality_start s
      = Some (s', Inr (quality, byte_size))"
    by (simp add: save_jpeg_under_limit_loop)
  from save_loop_inv_aux[OF this] assms(2)
  have "written_last jpeg img p quality s' \<and> byte_size = int (length (jpeg img quality))" by simp
  then show ?thesis by (simp add: written_last_def stat_size_def)
qed

text \<open>A run from quality 72: 72 and 69 are over the budget, 66 fits.\<close>

theorem returned_result_describes_file_on_disk_witness:
  "(35::int) \<le> 72
   \<and> save_jpeg_under_limit (\<lambda>u q. replicate (nat (q * 3000)) (0 :: 8 word)) () ''out.jpg'' 200 72 35 3
        \<lparr>files = Map.empty, saves = []\<rparr>
       = Some (\<lparr>files = [''out.jpg'' \<mapsto> replicate 198000 0], saves = [72, 69, 66]\<rparr>, Inr (66, 198000))
   \<and> files \<lparr>files = [''out.jpg'' \<mapsto> replicate 198000 (0 :: 8 word)], saves = [72, 69, 66]\<rparr> ''out.jpg''
       = Some (replicate (nat (66 * 3000)) 0)
   \<and> stat_size \<lparr>files = [''out.jpg'' \<mapsto> replicate 198000 (0 :: 8 word)], saves = [72, 69, 66]\<rparr> ''out.jpg''
       = Inr 198000
   \<and> last (saves \<lparr>files = [''out.jpg'' \<mapsto> replicate 198000 (0 :: 8 word)], saves = [72, 69, 66 :: int]\<rparr>) = 66"
proof -
  let ?J = "\<lambda>(u::unit) q. replicate (nat (q * 3000)) (0 :: 8 word)"
  have run: "save_jpeg_under_limit ?J () ''out.jpg'' 200 72 35 3 \<lparr>files = Map.empty, saves = []\<rparr>
       = Some (\<lparr>files = [''out.jpg'' \<mapsto> replicate 198000 0], saves = [72, 69, 66]\<rparr>, Inr (66, 198000))"
    by (simp add: save_jpeg_under_limit_loop loop_step fits_def img_save_def)
  from returned_result_describes_file_on_disk[OF run] run show ?thesis by simp
qed

text \<open>
  C3 as stated fails when \<open>quality_start < quality_min\<close>: nothing is saved, and the result
  describes the three bytes that were at the destination before the call, which are not the
  encode at the returned quality 33.
\<close>

theorem stale_file_reported_counterexample:
  "save_jpeg_under_limit (flat_jpeg 5) () ''out.jpg'' 200 30 35 3 (disk_with ''out.jpg'' [1, 2, 3])
     = Some (disk_with ''out.jpg'' [1, 2, 3], Inr (33, 3))
   \<and> files (disk_with ''out.jpg'' [1, 2, 3]) ''out.jpg'' \<noteq> Some (flat_jpeg 5 () 33)
   \<and> saves (disk_with ''out.jpg'' [1, 2, 3]) = []"
  by (simp add: save_jpeg_under_limit_loop loop_skipped stat_size_def disk_with_def flat_jpeg_def
        eval_nat_numeral)

text \<open>
  C10, amended. With \<open>quality_start < quality_min\<close> the loop body never runs: the file system
  is unchanged (no save is logged), the call raises \<^verbatim>\<open>FileNotFoundError\<close> when there is no
  file at the destination, and otherwise returns \<open>quality_start + quality_step\<close> with the size
  of the file that was already there.
\<close>

theorem start_below_min_skips_loop:
  assumes "quality_start < quality_min"
  shows "save_jpeg_under_limit jpeg img p max_kb quality_start quality_min quality_step s =
     Some (s, case files s p of None \<Rightarrow> Inl FileNotFoundError
              | Some b \<Rightarrow> Inr (quality_start + quality_step, int (length b)))"
  using assms by (simp add: save_jpeg_under_limit_loop loop_skipped stat_size_def split: option.splits)

text \<open>No file at the destination: the \<^verbatim>\<open>stat\<close> after the loop raises.\<close>

theorem start_below_min_skips_loop_witness:
  "(10::int) < 35 \<and> save_jpeg_under_limit (\<lambda>u q. [0, 0, 0, 0, 0 :: 8 word]) () ''out.jpg'' 200 10 35 3
      \<lparr>files = Map.empty, saves = []\<rparr> = Some (\<lparr>files = Map.empty, saves = []\<rparr>, Inl FileNotFoundError)"
  using start_below_min_skips_loop[of 10 35 "\<lambda>u q. [0, 0, 0, 0, 0 :: 8 word]" "()" "''out.jpg''" 200 3
     "\<lparr>files = Map.empty, saves = []\<rparr>"]
  by simp

text \<open>
  C10 as stated fails on the returned quality: from 20 with floor 35 and step 5 the call
  returns 25 (\<open>q + quality_step\<close>), not \<open>quality_start = 20\<close>.
\<close>

theorem start_below_min_returns_start_plus_step_counterexample:
  "save_jpeg_under_limit (flat_jpeg 5) () ''out.jpg'' 200 20 35 5 (disk_with ''out.jpg'' [7, 7])
     = Some (disk_with ''out.jpg'' [7, 7], Inr (25, 2))"
  by (simp add: save_jpeg_under_limit_loop loop_skipped stat_size_def disk_with_def)

section \<open>Properties of the size fitter\<close>

lemma py_round_nonneg: "0 \<le> x \<Longrightarrow> 0 \<le> py_round x"
  by (simp add: py_round_def Let_def)

lemma pow2_pos: "0 < pow2 e"
  by (simp add: pow2_def)

lemma fl_nonneg: "0 \<le> x \<Longrightarrow> 0 \<le> fl x"
proof (cases "x = 0")
  case True
  then show ?thesis by (simp add: fl_def)
next
  case False
  assume "0 \<le> x"
  with False have pos: "0 < x" by simp
  have "0 \<le> py_round (\<bar>x\<bar> / pow2 e)" for e
    by (rule py_round_nonneg) (simp add: less_imp_le[OF pow2_pos])
  then show ?thesis
    using pos False by (simp add: fl_def Let_def less_imp_le[OF pow2_pos] split: prod.splits)
qed

lemma fl_2: "fl 2 = 2" by code_simp
lemma fl_4_3: "fl (4 / 3) = 6004799503160661 / 4503599627370496" by code_simp
lemma fl_640: "fl 640 = 640" by code_simp
lemma fl_480: "fl 480 = 480" by code_simp
lemma fl_320: "fl 320 = 320" by code_simp
lemma fl_1300: "fl 1300 = 1300" by code_simp
lemma round_32_65: "py_round (fl (32 / 65)) = 0" by code_simp
lemma round_320: "py_round 320 = 320" by code_simp

lemma contain_narrow_strip:
  "resize_to_fit lib \<lparr>img_size = (1300, 1), img_mode = m, exif_orientation = None, pix = p\<rparr>
      (640, 480) ''contain''
   = ([Exif_transpose, Convert ''RGB'', Resize (640, 0)], Inl ValueError)"
  by (simp add: resize_to_fit_def exif_transpose_def convert_def int_truediv_def contain_size_def
        int_div_float_def resize_def fl_1300 fl_4_3 fl_640 round_32_65)


lemma resize_ok:
  assumes "1 \<le> fst sz" "1 \<le> snd sz"
  shows "\<exists>r. resize lib img sz = Inr r \<and> img_size r = sz"
proof (cases "img_size img = sz")
  case True
  then show ?thesis by (simp add: resize_def)
next
  case False
  with assms show ?thesis by (simp add: resize_def)
qed

lemma contain_layout_general:
  assumes sz: "img_size (exif_transpose lib img) = (src_w, src_h)"
    and pos: "0 < src_w" "0 < src_h" "0 < width" "0 < height"
    and lay: "spec_contain_layout (src_w, src_h) (width, height) = ((new_w, new_h), (ox, oy))"
    and ne: "1 \<le> new_w" "1 \<le> new_h"
  shows "\<exists>resized.
      resize lib (convert lib ''RGB'' (exif_transpose lib img)) (new_w, new_h) = Inr resized
    \<and> img_size resized = (new_w, new_h)
    \<and> resize_to_fit lib img (width, height) ''contain''
        = ([Exif_transpose, Convert ''RGB'', Resize (new_w, new_h), New_image (width, height),
            Paste (ox, oy)],
           Inr \<lparr>img_size = (width, height), img_mode = ''RGB'', exif_orientation = None,
                pix = (\<lambda>x y. if ox \<le> x \<and> x < ox + new_w \<and> oy \<le> y \<and> y < oy + new_h
                              then pix resized (x - ox) (y - oy) else (0, 0, 0))\<rparr>)"
proof -
  let ?img = "convert lib ''RGB'' (exif_transpose lib img)"
  let ?sr = "fl (of_int src_w / of_int src_h)"
  let ?tr = "fl (of_int width / of_int height)"
  have isz: "img_size ?img = (src_w, src_h)" using sz by (simp add: convert_def)
  have tr0: "0 \<le> ?tr" using pos by (intro fl_nonneg) simp
  have cs: "contain_size ?sr ?tr (width, height) = Inr (new_w, new_h)"
    using lay tr0
    by (auto simp: contain_size_def spec_contain_layout_def int_div_float_def int_mul_float_def
          Let_def split: if_splits)
  have off: "ox = (width - new_w) div 2" "oy = (height - new_h) div 2"
    using lay by (auto simp: spec_contain_layout_def Let_def split: if_splits)
  obtain resized where rs: "resize lib ?img (new_w, new_h) = Inr resized"
    and rsz: "img_size resized = (new_w, new_h)"
    using resize_ok[of "(new_w, new_h)" lib ?img] ne by auto
  have run: "resize_to_fit lib img (width, height) ''contain''
        = ([Exif_transpose, Convert ''RGB'', Resize (new_w, new_h), New_image (width, height),
            Paste (ox, oy)],
           Inr (paste \<lparr>img_size = (width, height), img_mode = ''RGB'', exif_orientation = None,
                       pix = (\<lambda>x y. (0, 0, 0))\<rparr> resized (ox, oy)))"
    using pos isz cs rs off
    by (simp add: resize_to_fit_def int_truediv_def new_image_def)
  show ?thesis
    using rs rsz run by (simp add: paste_def cong: if_cong)
qed


lemma layout_1000_500: "spec_contain_layout (1000, 500) (640, 480) = ((640, 320), (0, 80))"
  by (simp add: spec_contain_layout_def fl_2 fl_4_3 fl_640 fl_320 round_320 Let_def)

text \<open>\<open>bit_length\<close> is the number of binary digits.\<close>

lemma bit_length_bounds:
  "0 < n \<Longrightarrow> 2 ^ (bit_length n - 1) \<le> n \<and> n < 2 ^ bit_length n"
proof (induction n rule: bit_length.induct)
  case (1 n)
  show ?case
  proof (cases "n div 2 = 0")
    case True
    with "1.prems" have "n = Suc 0" by (simp add: div_eq_0_iff)
    then show ?thesis by (simp add: bit_length.simps[of "Suc 0"] bit_length.simps[of 0])
  next
    case False
    then have pos: "0 < n div 2" by simp
    from "1.prems" have n0: "n \<noteq> 0" by simp
    from "1.IH"[OF n0 pos] have lo: "2 ^ (bit_length (n div 2) - 1) \<le> n div 2"
      and hi: "n div 2 < 2 ^ bit_length (n div 2)" by simp_all
    have k: "0 < bit_length (n div 2)" using pos by (simp add: bit_length.simps[of "n div 2"])
    have bl: "bit_length n = Suc (bit_length (n div 2))" using n0 by (simp add: bit_length.simps[of n])
    have "2 ^ bit_length (n div 2) = (2::nat) * 2 ^ (bit_length (n div 2) - 1)"
      using k by (cases "bit_length (n div 2)") simp_all
    with lo have "2 ^ bit_length (n div 2) \<le> 2 * (n div 2)" by simp
    then have a: "2 ^ (bit_length n - 1) \<le> n" by (simp add: bl)
    from hi have "n < 2 * 2 ^ bit_length (n div 2)" by simp
    then have b: "n < 2 ^ bit_length n" by (simp add: bl)
    from a b show ?thesis by simp
  qed
qed

text \<open>Rounding to an integer moves a number by at most one half.\<close>

lemma py_round_near: "\<bar>of_int (py_round x) - x\<bar> \<le> 1 / 2"
proof -
  have "of_int \<lfloor>x\<rfloor> \<le> x" and "x < of_int \<lfloor>x\<rfloor> + 1" by linarith+
  then show ?thesis by (auto simp: py_round_def Let_def)
qed

lemma pow2_powi: "pow2 e = 2 powi e"
  by (simp add: pow2_def power_int_def power_inverse inverse_eq_divide power_one_over)

text \<open>The exponent chosen by \<open>fl\<close> is not above the binary logarithm of its argument.\<close>

lemma fl_exponent_below:
  assumes "0 < x" "quotient_of x = (a, b)"
  shows "pow2 (int (bit_length (nat a)) - int (bit_length (nat b)) - 1) \<le> x"
proof -
  from assms have b: "0 < b" using quotient_of_denom_pos by blast
  from assms have x: "x = of_int a / of_int b" using quotient_of_div by blast
  with assms(1) b have a: "0 < a" by (simp add: zero_less_divide_iff)
  let ?la = "bit_length (nat a)" and ?lb = "bit_length (nat b)"
  from bit_length_bounds[of "nat a"] a have "2 ^ (?la - 1) \<le> nat a" by simp
  then have "int (2 ^ (?la - 1)) \<le> a" using a by linarith
  then have ar: "(2::rat) ^ (?la - 1) \<le> of_int a"
    by (metis of_int_le_iff of_int_of_nat_eq of_nat_numeral of_nat_power)
  from bit_length_bounds[of "nat b"] b have "nat b < 2 ^ ?lb" by simp
  then have "b < int (2 ^ ?lb)" using b by linarith
  then have br: "of_int b \<le> (2::rat) ^ ?lb"
    by (metis less_imp_le of_int_le_iff of_int_of_nat_eq of_nat_numeral of_nat_power)
  have la: "0 < ?la" using a by (simp add: bit_length.simps[of "nat a"])
  have "pow2 (int ?la - int ?lb - 1) = 2 powi (int (?la - 1) - int ?lb)"
    using la by (simp add: pow2_powi algebra_simps)
  also have "\<dots> = 2 ^ (?la - 1) / 2 ^ ?lb"
    by (simp add: power_int_diff)
  also have "\<dots> \<le> of_int a / of_int b"
    using ar br b a by (intro frac_le) simp_all
  finally show ?thesis by (simp add: x)
qed

text \<open>The relative error of one floating-point operation is at most \<open>2 ^ - 53\<close>.\<close>

lemma fl_error:
  assumes "0 < x"
  shows "\<bar>fl x - x\<bar> \<le> x / 2 ^ 53"
proof -
  obtain a b where q: "quotient_of x = (a, b)" by (cases "quotient_of x")
  define d where "d = int (bit_length (nat a)) - int (bit_length (nat b))"
  define e where "e = (if pow2 d \<le> x then d else d - 1)"
  define m where "m = py_round (x / pow2 (e - 52))"
  have ex: "pow2 e \<le> x"
    using fl_exponent_below[OF assms q] by (auto simp: e_def d_def)
  have f: "fl x = of_int m * pow2 (e - 52)"
    using assms q by (simp add: fl_def Let_def d_def e_def m_def)
  have p: "0 < pow2 (e - 52)" by (simp add: pow2_powi)
  have "fl x - x = (of_int m - x / pow2 (e - 52)) * pow2 (e - 52)"
    using p by (simp add: f left_diff_distrib)
  then have "\<bar>fl x - x\<bar> = \<bar>of_int m - x / pow2 (e - 52)\<bar> * pow2 (e - 52)"
    using p by (simp add: abs_mult)
  also have "\<dots> \<le> 1 / 2 * pow2 (e - 52)"
    using py_round_near[of "x / pow2 (e - 52)"] p
    by (intro mult_right_mono) (simp_all add: m_def)
  also have "\<dots> = pow2 e / 2 ^ 53"
    by (simp add: pow2_powi power_int_diff)
  also have "\<dots> \<le> x / 2 ^ 53"
    using ex by (simp add: divide_right_mono)
  finally show ?thesis .
qed


lemma fl_bounds:
  assumes "0 < x"
  shows "7 / 8 * x \<le> fl x" and "fl x \<le> 9 / 8 * x"
proof -
  have "x / 2 ^ 53 \<le> x / 8" using assms by (intro divide_left_mono) simp_all
  with fl_error[OF assms] have "\<bar>fl x - x\<bar> \<le> x / 8" by linarith
  then show "7 / 8 * x \<le> fl x" and "fl x \<le> 9 / 8 * x" by linarith+
qed

lemma py_round_ge_1: "1 / 2 < x \<Longrightarrow> 1 \<le> py_round x"
proof -
  assume "1 / 2 < x"
  with py_round_near[of x] have "0 < (of_int (py_round x) :: rat)" by linarith
  then show ?thesis by simp
qed



lemma cover_arith_wide:
  fixes W H sr tr fH p :: rat
  assumes "1 \<le> W" "1 \<le> H" "7 / 8 * (W / H) \<le> tr" "tr < sr" "7 / 8 * H \<le> fH"
  shows "49 / 64 \<le> fH * sr"
proof -
  have tr0: "0 < tr"
  proof -
    have "0 < 7 / 8 * (W / H)" using assms(1,2) by simp
    with assms(3) show ?thesis by linarith
  qed
  have fH0: "0 < fH" using assms(2,5) by linarith
  have a: "7 / 8 * H * (7 / 8 * (W / H)) = 49 / 64 * W" using assms(2) by simp
  have "7 / 8 * H * (7 / 8 * (W / H)) \<le> fH * tr"
  proof (rule mult_mono)
    show "7 / 8 * H \<le> fH" by (rule assms(5))
    show "7 / 8 * (W / H) \<le> tr" by (rule assms(3))
    show "0 \<le> fH" using fH0 by simp
    show "0 \<le> 7 / 8 * (W / H)" using assms(1,2) by simp
  qed
  moreover have "fH * tr \<le> fH * sr"
    using assms(4) fH0 by (simp add: mult_left_mono)
  ultimately have "49 / 64 * W \<le> fH * sr" using a by linarith
  with assms(1) show ?thesis by linarith
qed

lemma cover_arith_tall:
  fixes W H sr tr fW :: rat
  assumes "1 \<le> W" "1 \<le> H" "tr \<le> 9 / 8 * (W / H)" "0 < sr" "sr \<le> tr" "7 / 8 * W \<le> fW"
  shows "7 / 9 \<le> fW / sr"
proof -
  have fW0: "0 < fW" using assms(1,6) by linarith
  have sr_hi: "sr \<le> 9 / 8 * (W / H)" using assms(3,5) by linarith
  have "sr * H \<le> 9 / 8 * W"
  proof -
    have "sr * H \<le> 9 / 8 * (W / H) * H"
      using sr_hi assms(2) by (intro mult_right_mono) simp_all
    also have "\<dots> = 9 / 8 * W" using assms(2) by simp
    finally show ?thesis .
  qed
  then have "7 / 9 * sr * H \<le> 7 / 8 * W" by linarith
  also have "\<dots> \<le> fW" by (rule assms(6))
  finally have b: "7 / 9 * sr * H \<le> fW" .
  have "7 / 9 * sr \<le> 7 / 9 * sr * H"
  proof -
    have "0 \<le> 7 / 9 * sr" using assms(4) by simp
    then have "7 / 9 * sr * 1 \<le> 7 / 9 * sr * H" using assms(2) by (intro mult_left_mono) simp_all
    then show ?thesis by simp
  qed
  with b have "7 / 9 * sr \<le> fW" by linarith
  then show ?thesis using assms(4) by (simp add: pos_le_divide_eq)
qed


text \<open>
  In mode \<^verbatim>\<open>cover\<close> the resized content has no side below 1 (it covers the frame up to
  rounding), so the resize never raises for positive sizes.
\<close>

lemma cover_size_ok:
  assumes "0 < src_w" "0 < src_h" "0 < width" "0 < height"
  shows "\<exists>new_w new_h.
     cover_size (fl (of_int src_w / of_int src_h)) (fl (of_int width / of_int height)) (width, height)
       = Inr (new_w, new_h) \<and> 1 \<le> new_w \<and> 1 \<le> new_h"
proof -
  define sr where "sr = fl (of_int src_w / of_int src_h)"
  define tr where "tr = fl (of_int width / of_int height)"
  define W where "W = (of_int width :: rat)"
  define H where "H = (of_int height :: rat)"
  have W: "1 \<le> W" and H: "1 \<le> H" using assms by (simp_all add: W_def H_def)
  have s0: "0 < (of_int src_w / of_int src_h :: rat)" using assms by simp
  have t0: "0 < W / H" using W H by simp
  have sr: "0 < sr"
  proof -
    have "0 < 7 / 8 * (of_int src_w / of_int src_h :: rat)" using s0 by simp
    with fl_bounds(1)[OF s0] show ?thesis unfolding sr_def by linarith
  qed
  have tr_lo: "7 / 8 * (W / H) \<le> tr" and tr_hi: "tr \<le> 9 / 8 * (W / H)"
    using fl_bounds[OF t0] by (simp_all add: tr_def W_def H_def)
  have fW: "7 / 8 * W \<le> fl W"
  proof -
    have "0 < W" using W by linarith
    then show ?thesis by (rule fl_bounds(1))
  qed
  have fH: "7 / 8 * H \<le> fl H"
  proof -
    have "0 < H" using H by linarith
    then show ?thesis by (rule fl_bounds(1))
  qed
  show ?thesis
  proof (cases "tr < sr")
    case True
    from cover_arith_wide[OF W H tr_lo True fH] have p: "49 / 64 \<le> fl H * sr" .
    then have "0 < fl H * sr" by linarith
    from fl_bounds(1)[OF this] p have "1 / 2 < fl (fl H * sr)" by linarith
    then have "1 \<le> py_round (fl (fl H * sr))" by (rule py_round_ge_1)
    then have r: "1 \<le> py_round (int_mul_float height sr)"
      by (simp add: int_mul_float_def H_def)
    have "cover_size sr tr (width, height) = Inr (py_round (int_mul_float height sr), height)"
      using True by (simp add: cover_size_def)
    moreover have "1 \<le> height" using assms(4) by simp
    ultimately show ?thesis using r unfolding sr_def tr_def by blast
  next
    case False
    then have le: "sr \<le> tr" by simp
    from cover_arith_tall[OF W H tr_hi sr le fW] have p: "7 / 9 \<le> fl W / sr" .
    then have "0 < fl W / sr" by linarith
    from fl_bounds(1)[OF this] p have "1 / 2 < fl (fl W / sr)" by linarith
    then have r: "1 \<le> py_round (fl (fl W / sr))" by (rule py_round_ge_1)
    have "int_div_float width sr = Inr (fl (fl W / sr))"
      using sr by (simp add: int_div_float_def W_def)
    then have "cover_size sr tr (width, height) = Inr (width, py_round (fl (fl W / sr)))"
      using False by (simp add: cover_size_def)
    moreover have "1 \<le> width" using assms(3) by simp
    ultimately show ?thesis using r unfolding sr_def tr_def by blast
  qed
qed


lemma crop_size:
  "left \<le> right \<Longrightarrow> upper \<le> lower \<Longrightarrow>
   \<exists>r. crop im (left, upper, right, lower) = Inr r \<and> img_size r = (right - left, lower - upper)"
  by (simp add: crop_def)

text \<open>
  Mode \<^verbatim>\<open>cover\<close> returns an image of exactly the target size for every source and target
  of positive size.
\<close>

lemma cover_fits_frame:
  assumes sz: "img_size (exif_transpose lib img) = (src_w, src_h)"
    and pos: "0 < src_w" "0 < src_h" "0 < width" "0 < height"
  shows "\<exists>new_w new_h r.
     resize_to_fit lib img (width, height) ''cover''
       = ([Exif_transpose, Convert ''RGB'', Resize (new_w, new_h),
           Crop ((new_w - width) div 2, (new_h - height) div 2,
                 (new_w - width) div 2 + width, (new_h - height) div 2 + height)],
          Inr r)
     \<and> img_size r = (width, height)"
proof -
  define im where "im = convert lib ''RGB'' (exif_transpose lib img)"
  have isz: "img_size im = (src_w, src_h)" using sz by (simp add: im_def convert_def)
  from cover_size_ok[OF pos] obtain new_w new_h where
    cs: "cover_size (fl (of_int src_w / of_int src_h)) (fl (of_int width / of_int height)) (width, height)
       = Inr (new_w, new_h)" and ne: "1 \<le> new_w" "1 \<le> new_h" by blast
  from resize_ok[of "(new_w, new_h)" lib im] ne obtain resized where
    rs: "resize lib im (new_w, new_h) = Inr resized" by auto
  define left where "left = (new_w - width) div 2"
  define upper where "upper = (new_h - height) div 2"
  from crop_size[of left "left + width" upper "upper + height" resized] pos(3,4)
  obtain r where cr: "crop resized (left, upper, left + width, upper + height) = Inr r"
    and rsz: "img_size r = (width, height)" by auto
  have td1: "int_truediv src_w src_h = Inr (fl (of_int src_w / of_int src_h))"
    using pos(2) by (simp add: int_truediv_def)
  have td2: "int_truediv width height = Inr (fl (of_int width / of_int height))"
    using pos(4) by (simp add: int_truediv_def)
  have run: "resize_to_fit lib img (width, height) ''cover''
       = ([Exif_transpose, Convert ''RGB'', Resize (new_w, new_h),
           Crop (left, upper, left + width, upper + height)], Inr r)"
    unfolding resize_to_fit_def im_def[symmetric]
    by (simp add: isz td1 td2 cs rs Let_def left_def[symmetric] upper_def[symmetric] cr)
  show ?thesis
    using run rsz unfolding left_def upper_def by blast
qed

text \<open>
  Mode \<^verbatim>\<open>contain\<close> returns an image of exactly the target size whenever the rounded content
  size has no side below 1.
\<close>

lemma contain_fits_frame:
  assumes "img_size (exif_transpose lib img) = (src_w, src_h)"
    and "0 < src_w" "0 < src_h" "0 < width" "0 < height"
    and "spec_contain_layout (src_w, src_h) (width, height) = ((new_w, new_h), (ox, oy))"
    and "1 \<le> new_w" "1 \<le> new_h"
  shows "\<exists>r. snd (resize_to_fit lib img (width, height) ''contain'') = Inr r
           \<and> img_size r = (width, height)"
  using contain_layout_general[OF assms] by auto

text \<open>
  The layout of mode \<^verbatim>\<open>contain\<close> where the resize succeeds. For a source of positive size
  (after orientation is applied) and a positive target size, \<^verbatim>\<open>resize_to_fit\<close> resizes to
  the content size of the specification's formula (\<open>new_w = width\<close>,
  \<open>new_h = round (width / src_ratio)\<close> when \<open>src_ratio > tgt_ratio\<close>, else \<open>new_h = height\<close>,
  \<open>new_w = round (height * src_ratio)\<close>) and, when that size has no side below 1, returns a
  canvas of exactly \<open>(width, height)\<close> that is black outside the box of that size at the
  floor-division offset \<open>((width - new_w) div 2, (height - new_h) div 2)\<close> and holds the
  resized image inside it. For a 1000 x 500 source and a 640 x 480 target the content is
  640 x 320 at offset \<open>(0, 80)\<close>: rows 0 to 79 and 400 to 479 are black.
\<close>

theorem contain_layout:
  "(img_size (exif_transpose lib img) = (src_w, src_h) \<and> 0 < src_w \<and> 0 < src_h \<and>
    0 < width \<and> 0 < height \<and>
    spec_contain_layout (src_w, src_h) (width, height) = ((new_w, new_h), (ox, oy)) \<and>
    1 \<le> new_w \<and> 1 \<le> new_h
    \<longrightarrow> (\<exists>resized.
          resize lib (convert lib ''RGB'' (exif_transpose lib img)) (new_w, new_h) = Inr resized
        \<and> img_size resized = (new_w, new_h)
        \<and> resize_to_fit lib img (width, height) ''contain''
            = ([Exif_transpose, Convert ''RGB'', Resize (new_w, new_h), New_image (width, height),
                Paste (ox, oy)],
               Inr \<lparr>img_size = (width, height), img_mode = ''RGB'', exif_orientation = None,
                    pix = (\<lambda>x y. if ox \<le> x \<and> x < ox + new_w \<and> oy \<le> y \<and> y < oy + new_h
                                  then pix resized (x - ox) (y - oy) else (0, 0, 0))\<rparr>)))
   \<and> (img_size (exif_transpose lib img) = (1000, 500)
    \<longrightarrow> (\<exists>resized.
          resize lib (convert lib ''RGB'' (exif_transpose lib img)) (640, 320) = Inr resized
        \<and> img_size resized = (640, 320)
        \<and> resize_to_fit lib img (640, 480) ''contain''
            = ([Exif_transpose, Convert ''RGB'', Resize (640, 320), New_image (640, 480),
                Paste (0, 80)],
               Inr \<lparr>img_size = (640, 480), img_mode = ''RGB'', exif_orientation = None,
                    pix = (\<lambda>x y. if 0 \<le> x \<and> x < 640 \<and> 80 \<le> y \<and> y < 400
                                  then pix resized x (y - 80) else (0, 0, 0))\<rparr>)))"
proof (intro conjI impI)
  assume "img_size (exif_transpose lib img) = (src_w, src_h) \<and> 0 < src_w \<and> 0 < src_h \<and>
    0 < width \<and> 0 < height \<and>
    spec_contain_layout (src_w, src_h) (width, height) = ((new_w, new_h), (ox, oy)) \<and>
    1 \<le> new_w \<and> 1 \<le> new_h"
  then show "\<exists>resized.
          resize lib (convert lib ''RGB'' (exif_transpose lib img)) (new_w, new_h) = Inr resized
        \<and> img_size resized = (new_w, new_h)
        \<and> resize_to_fit lib img (width, height) ''contain''
            = ([Exif_transpose, Convert ''RGB'', Resize (new_w, new_h), New_image (width, height),
                Paste (ox, oy)],
               Inr \<lparr>img_size = (width, height), img_mode = ''RGB'', exif_orientation = None,
                    pix = (\<lambda>x y. if ox \<le> x \<and> x < ox + new_w \<and> oy \<le> y \<and> y < oy + new_h
                                  then pix resized (x - ox) (y - oy) else (0, 0, 0))\<rparr>)"
    using contain_layout_general[of lib img src_w src_h width height new_w new_h ox oy] by blast
next
  assume sz: "img_size (exif_transpose lib img) = (1000, 500)"
  from contain_layout_general[OF sz _ _ _ _ layout_1000_500]
  show "\<exists>resized.
          resize lib (convert lib ''RGB'' (exif_transpose lib img)) (640, 320) = Inr resized
        \<and> img_size resized = (640, 320)
        \<and> resize_to_fit lib img (640, 480) ''contain''
            = ([Exif_transpose, Convert ''RGB'', Resize (640, 320), New_image (640, 480),
                Paste (0, 80)],
               Inr \<lparr>img_size = (640, 480), img_mode = ''RGB'', exif_orientation = None,
                    pix = (\<lambda>x y. if 0 \<le> x \<and> x < 640 \<and> 80 \<le> y \<and> y < 400
                                  then pix resized x (y - 80) else (0, 0, 0))\<rparr>)"
    by (simp cong: if_cong)
qed

text \<open>The example of the specification on a white 1000 x 500 image.\<close>

theorem contain_layout_witness:
  "img_size (exif_transpose plain_lib (white_image (1000, 500))) = (1000, 500)
   \<and> spec_contain_layout (1000, 500) (640, 480) = ((640, 320), (0, 80))
   \<and> resize_to_fit plain_lib (white_image (1000, 500)) (640, 480) ''contain''
       = ([Exif_transpose, Convert ''RGB'', Resize (640, 320), New_image (640, 480), Paste (0, 80)],
          Inr \<lparr>img_size = (640, 480), img_mode = ''RGB'', exif_orientation = None,
               pix = (\<lambda>x y. if 0 \<le> x \<and> x < 640 \<and> 80 \<le> y \<and> y < 400
                             then (255, 255, 255) else (0, 0, 0))\<rparr>)"
proof -
  have sz: "img_size (exif_transpose plain_lib (white_image (1000, 500))) = (1000, 500)"
    by (simp add: exif_transpose_def white_image_def)
  have rs: "resize plain_lib (convert plain_lib ''RGB'' (exif_transpose plain_lib (white_image (1000, 500))))
              (640, 320) = Inr r \<Longrightarrow> pix r = (\<lambda>x y. (255, 255, 255))" for r
    by (auto simp: resize_def convert_def exif_transpose_def white_image_def plain_lib_def)
  from contain_layout[of plain_lib "white_image (1000, 500)" 1000 500 640 480 640 320 0 80]
    sz layout_1000_500 rs
  show ?thesis by (auto cong: if_cong)
qed


text \<open>
  C5 fails where the content size rounds to a side of 0. For a 1300 x 1 source and a
  640 x 480 target the formula of the specification gives the content size \<open>(640, 0)\<close> at
  offset \<open>(0, 240)\<close>, and \<^verbatim>\<open>resize_to_fit\<close> raises in the resize to that size: the log of
  library calls ends there, so no canvas is created and nothing is pasted. It is the same
  missing lower bound on the rounded side that C2 meets.
\<close>

theorem contain_layout_not_reached_for_flat_content:
  "spec_contain_layout (1300, 1) (640, 480) = ((640, 0), (0, 240))
   \<and> resize_to_fit plain_lib (white_image (1300, 1)) (640, 480) ''contain''
       = ([Exif_transpose, Convert ''RGB'', Resize (640, 0)], Inl ValueError)"
proof -
  have "spec_contain_layout (1300, 1) (640, 480) = ((640, 0), (0, 240))"
    by (simp add: spec_contain_layout_def fl_1300 fl_4_3 fl_640 round_32_65 Let_def)
  moreover have "resize_to_fit plain_lib (white_image (1300, 1)) (640, 480) ''contain''
       = ([Exif_transpose, Convert ''RGB'', Resize (640, 0)], Inl ValueError)"
    by (simp add: resize_to_fit_def exif_transpose_def convert_def int_truediv_def
          contain_size_def int_div_float_def resize_def white_image_def
          fl_1300 fl_4_3 fl_640 round_32_65)
  ultimately show ?thesis by simp
qed

text \<open>Mode \<^verbatim>\<open>exact\<close> returns an image of the target size for every target of positive size.\<close>

lemma exact_fits_frame:
  assumes "1 \<le> width" "1 \<le> height"
  shows "\<exists>r. resize_to_fit lib img (width, height) ''exact''
             = ([Exif_transpose, Convert ''RGB'', Resize (width, height)], Inr r)
           \<and> img_size r = (width, height)"
  using resize_ok[of "(width, height)" lib "convert lib ''RGB'' (exif_transpose lib img)"] assms
  by (auto simp: resize_to_fit_def)

text \<open>
  C2 fails in mode \<^verbatim>\<open>contain\<close>: for a 1300 x 1 source and the default 640 x 480 target,
  \<open>src_ratio = 1300 > tgt_ratio\<close>, so \<open>new_h = round (640 / 1300) = 0\<close>, and the resize to
  \<open>(640, 0)\<close> raises instead of returning an image of the target size.
\<close>

theorem contain_zero_height_content_raises:
  "resize_to_fit lib \<lparr>img_size = (1300, 1), img_mode = m, exif_orientation = None, pix = p\<rparr>
      (640, 480) ''contain''
   = ([Exif_transpose, Convert ''RGB'', Resize (640, 0)], Inl ValueError)"
  by (simp add: resize_to_fit_def exif_transpose_def convert_def int_truediv_def contain_size_def
        int_div_float_def resize_def fl_1300 fl_4_3 fl_640 round_32_65)

text \<open>
  C6, amended. For every mode string other than \<^verbatim>\<open>exact\<close>, \<^verbatim>\<open>contain\<close> and \<^verbatim>\<open>cover\<close>,
  \<^verbatim>\<open>resize_to_fit\<close> raises after exactly two library calls, the orientation transpose and the
  conversion to RGB, and before any resize, canvas, paste or crop. The exception is
  \<^verbatim>\<open>ValueError\<close>, unless the source height or the target height is 0, when the ratio
  computation raises \<^verbatim>\<open>ZeroDivisionError\<close> first.
\<close>

theorem unknown_mode_fails_after_normalisation:
  assumes "mode \<notin> {''exact'', ''contain'', ''cover''}"
  shows "resize_to_fit lib img (target_w, target_h) mode
     = ([Exif_transpose, Convert ''RGB''],
        Inl (if snd (img_size (exif_transpose lib img)) = 0 \<or> target_h = 0
             then ZeroDivisionError else ValueError))"
  using assms
  by (cases "img_size (exif_transpose lib img)")
     (simp add: resize_to_fit_def int_truediv_def convert_def)

text \<open>An unknown mode on an 800 x 600 image.\<close>

theorem unknown_mode_fails_after_normalisation_witness:
  "''stretch'' \<notin> {''exact'', ''contain'', ''cover''}
   \<and> resize_to_fit plain_lib (white_image (800, 600)) (640, 480) ''stretch''
       = ([Exif_transpose, Convert ''RGB''], Inl ValueError)"
  using unknown_mode_fails_after_normalisation[of "''stretch''" plain_lib "white_image (800, 600)" 640 480]
  by (simp add: exif_transpose_def white_image_def)

text \<open>
  C6 as stated fails: with the unknown mode \<^verbatim>\<open>fill\<close>, a grey-scale image with orientation
  tag 6 is transposed and converted to RGB before the error is raised.
\<close>

theorem unknown_mode_pixel_work_counterexample:
  "resize_to_fit plain_lib tagged_grey_image (640, 480) ''fill''
     = ([Exif_transpose, Convert ''RGB''], Inl ValueError)
   \<and> exif_transpose plain_lib tagged_grey_image \<noteq> tagged_grey_image"
proof -
  have "img_size (exif_transpose plain_lib tagged_grey_image) \<noteq> img_size tagged_grey_image"
    by (simp add: exif_transpose_def tagged_grey_image_def)
  then have "exif_transpose plain_lib tagged_grey_image \<noteq> tagged_grey_image"
    by auto
  moreover have "resize_to_fit plain_lib tagged_grey_image (640, 480) ''fill''
     = ([Exif_transpose, Convert ''RGB''], Inl ValueError)"
    by (simp add: resize_to_fit_def int_truediv_def convert_def exif_transpose_def
          tagged_grey_image_def)
  ultimately show ?thesis by simp
qed

section \<open>Properties of the overlay compositor\<close>

lemma split_on_nonempty: "split_on sep s \<noteq> []"
  by (induction s) (auto split: list.splits)

lemma overlay_lines_nonempty:
  "identity_text \<noteq> [] \<or> caption_text \<noteq> [] \<Longrightarrow> overlay_lines fonts identity_text caption_text \<noteq> []"
  by (auto simp: overlay_lines_def split_on_nonempty)

lemma draw_lines_frame:
  "a \<noteq> r \<Longrightarrow> objs (draw_lines te r x y ls st) a = objs st a"
  by (induction te r x y ls st rule: draw_lines.induct) (simp_all add: draw_text_def)

lemma draw_lines_next_ref:
  "next_ref (draw_lines te r x y ls st) = next_ref st"
  by (induction te r x y ls st rule: draw_lines.induct) (simp_all add: draw_text_def)

lemma draw_lines_render:
  "objs (draw_lines te r x y ls st) r = render_lines te x y ls (objs st r)"
  by (induction te r x y ls st rule: draw_lines.induct) (simp_all add: draw_text_def)

text \<open>
  C8. With an empty identity text and an empty caption, \<^verbatim>\<open>add_watermark\<close> returns the
  reference it was given and leaves the store as it was: nothing is drawn and no copy is
  allocated.
\<close>

theorem empty_texts_return_the_input:
  "add_watermark te st img [] [] margin = (st, Inr img)"
  by (simp add: add_watermark_def)

text \<open>
  C9. When the identity text or the caption is not empty, \<^verbatim>\<open>add_watermark\<close> returns a
  reference that was not allocated before the call, different from the caller's; the object
  behind it is the overlay drawn on a copy of the input image; and every object that existed
  before the call, the caller's image among them, is unchanged.
\<close>

theorem overlay_is_drawn_on_a_fresh_copy:
  assumes "identity_text \<noteq> [] \<or> caption_text \<noteq> []" and "img < next_ref st"
  shows "\<exists>st'. add_watermark te st img identity_text caption_text margin = (st', Inr (next_ref st))
     \<and> next_ref st \<noteq> img
     \<and> next_ref st' = Suc (next_ref st)
     \<and> (\<forall>a. a \<noteq> next_ref st \<longrightarrow> objs st' a = objs st a)
     \<and> objs st' img = objs st img
     \<and> objs st' (next_ref st) = overlay_of te (objs st img) identity_text caption_text margin"
proof -
  let ?lines = "overlay_lines (load_fonts te) identity_text caption_text"
  have ne: "?lines \<noteq> []" by (rule overlay_lines_nonempty[OF assms(1)])
  from assms(2) have neq: "next_ref st \<noteq> img" by simp
  show ?thesis
    using ne neq assms(1)
    by (auto simp: add_watermark_def copy_image_def Let_def draw_lines_frame draw_lines_next_ref
          draw_lines_render overlay_of_def)
qed

text \<open>
  Two identity lines on a white 640 x 480 image held at reference 0: the result is the new
  reference 1 with the shadows of both lines drawn, and the image at reference 0 is still
  white.
\<close>

theorem overlay_is_drawn_on_a_fresh_copy_witness:
  "(0::nat) < next_ref one_image_store
   \<and> snd (add_watermark plain_engine one_image_store 0 ''K0PRA|Parker'' [] 14) = Inr 1
   \<and> objs (fst (add_watermark plain_engine one_image_store 0 ''K0PRA|Parker'' [] 14)) 0
       = white_image (640, 480)
   \<and> pix (objs (fst (add_watermark plain_engine one_image_store 0 ''K0PRA|Parker'' [] 14)) 1) 15 441
       = (0, 0, 0)
   \<and> pix (objs (fst (add_watermark plain_engine one_image_store 0 ''K0PRA|Parker'' [] 14)) 1) 15 456
       = (0, 0, 0)"
proof -
  have h1: "''K0PRA|Parker'' \<noteq> [] \<or> ([] :: string) \<noteq> []" by simp
  have h2: "0 < next_ref one_image_store" by (simp add: one_image_store_def)
  have n: "next_ref one_image_store = 1" by (simp add: one_image_store_def)
  have o: "objs one_image_store 0 = white_image (640, 480)" by (simp add: one_image_store_def)
  from overlay_is_drawn_on_a_fresh_copy[OF h1 h2, of plain_engine 14]
  obtain st' where run: "add_watermark plain_engine one_image_store 0 ''K0PRA|Parker'' [] 14 = (st', Inr 1)"
    and keep: "objs st' 0 = white_image (640, 480)"
    and new: "objs st' 1 = overlay_of plain_engine (white_image (640, 480)) ''K0PRA|Parker'' [] 14"
    unfolding n o by blast
  have ls: "overlay_lines (load_fonts plain_engine) ''K0PRA|Parker'' []
      = [(''K0PRA'', Default_font), (''Parker'', Default_font)]"
    by (simp add: overlay_lines_def load_fonts_def plain_engine_def)
  have p1: "pix (overlay_of plain_engine (white_image (640, 480)) ''K0PRA|Parker'' [] 14) 15 441 = (0, 0, 0)"
    by (simp add: overlay_of_def ls line_height_def Let_def)
       (simp add: plain_engine_def white_image_def)
  have p2: "pix (overlay_of plain_engine (white_image (640, 480)) ''K0PRA|Parker'' [] 14) 15 456 = (0, 0, 0)"
    by (simp add: overlay_of_def ls line_height_def Let_def)
       (simp add: plain_engine_def white_image_def)
  from run keep new p1 p2 h2 show ?thesis by simp
qed

section \<open>Properties of the size parser\<close>

text \<open>
  C7 fails on the command line: \<^verbatim>\<open>parse_size\<close> checks only that the text splits at
  \<^verbatim>\<open>x\<close> into two integer literals, so \<^verbatim>\<open>0x480\<close> and \<^verbatim>\<open>-640x480\<close> are accepted as
  \<open>(0, 480)\<close> and \<open>(-640, 480)\<close>. The graphical front end's \<^verbatim>\<open>_parse_size\<close> rejects both.
  A size that got through fails, if at all, only inside the pipeline: with target height 0
  the size fitter raises \<^verbatim>\<open>ZeroDivisionError\<close> after the image has been opened, transposed
  and converted.
\<close>

theorem parse_size_accepts_nonpositive_sizes:
  "parse_size ''0x480'' = Inr (0, 480) \<and> parse_size ''-640x480'' = Inr (- 640, 480)
   \<and> gui_parse_size ''0x480'' = Inl ValueError \<and> gui_parse_size ''-640x480'' = Inl ValueError
   \<and> parse_size ''640x0'' = Inr (640, 0)
   \<and> resize_to_fit plain_lib (white_image (800, 600)) (640, 0) ''cover''
       = ([Exif_transpose, Convert ''RGB''], Inl ZeroDivisionError)"
proof -
  have "parse_size ''0x480'' = Inr (0, 480) \<and> parse_size ''-640x480'' = Inr (- 640, 480)
   \<and> gui_parse_size ''0x480'' = Inl ValueError \<and> gui_parse_size ''-640x480'' = Inl ValueError
   \<and> parse_size ''640x0'' = Inr (640, 0)"
    by code_simp
  moreover have "resize_to_fit plain_lib (white_image (800, 600)) (640, 0) ''cover''
       = ([Exif_transpose, Convert ''RGB''], Inl ZeroDivisionError)"
    by (simp add: resize_to_fit_def int_truediv_def convert_def exif_transpose_def white_image_def)
  ultimately show ?thesis by simp
qed

end
